theory Spec2Isabelle
  imports Main
begin

section \<open>Data model\<close>

text \<open>
  A parsed JSON document, as \<^verbatim>\<open>json.loads\<close> hands it to the program: \<^verbatim>\<open>None\<close>,
  \<^verbatim>\<open>bool\<close>, a number, \<^verbatim>\<open>str\<close>, \<^verbatim>\<open>list\<close> and \<^verbatim>\<open>dict\<close>. The program never looks
  inside a number, so the number type is a parameter. A \<^verbatim>\<open>dict\<close> is the list of its
  items in insertion order; a Python \<^verbatim>\<open>dict\<close> has no two items with the same key
  (\<open>distinct (map fst kvs)\<close>), which the theorems that need it assume.
\<close>

datatype 'n json =
    JNull
  | JBool bool
  | JNumber 'n
  | JString string
  | JArray "'n json list"
  | JObject "(string \<times> 'n json) list"

type_synonym 'n items = "(string \<times> 'n json) list"

text \<open>\<^verbatim>\<open>isinstance(v, dict)\<close>, \<^verbatim>\<open>isinstance(v, list)\<close>, and the values that are neither.\<close>

fun is_dict :: "'n json \<Rightarrow> bool" where
  "is_dict (JObject kvs) = True"
| "is_dict v = False"

fun is_list :: "'n json \<Rightarrow> bool" where
  "is_list (JArray xs) = True"
| "is_list v = False"

definition is_scalar :: "'n json \<Rightarrow> bool" where
  "is_scalar v = (\<not> is_dict v \<and> \<not> is_list v)"

text \<open>\<^verbatim>\<open>data.items()\<close> of a \<^verbatim>\<open>dict\<close>.\<close>

fun items_of :: "'n json \<Rightarrow> 'n items" where
  "items_of (JObject kvs) = kvs"
| "items_of v = []"

text \<open>
  The decimal rendering of an index that an f-string \<^verbatim>\<open>{i}\<close> produces. \<open>digit_char\<close> is
  only applied to a number below ten.
\<close>

definition digit_char :: "nat \<Rightarrow> char" where
  "digit_char n = ''0123456789'' ! n"

fun str :: "nat \<Rightarrow> string" where
  "str n = (if n < 10 then [digit_char n] else str (n div 10) @ [digit_char (n mod 10)])"

text \<open>
  \<^verbatim>\<open>dict(items)\<close>: the items are assigned one after the other. Assigning to a key that
  is present replaces its value where the key stands; a new key goes to the end.
\<close>

fun dict_setitem :: "('k \<times> 'v) list \<Rightarrow> 'k \<Rightarrow> 'v \<Rightarrow> ('k \<times> 'v) list" where
  "dict_setitem [] k v = [(k, v)]"
| "dict_setitem ((k', v') # d) k v =
     (if k' = k then (k', v) # d else (k', v') # dict_setitem d k v)"

definition dict :: "('k \<times> 'v) list \<Rightarrow> ('k \<times> 'v) list" where
  "dict its = foldl (\<lambda>d (k, v). dict_setitem d k v) [] its"

section \<open>The flattener\<close>

text \<open>
  \<^verbatim>\<open>flatten_json(data, parent_key='', sep='_')\<close>. \<open>dict_loop\<close> is the loop
  \<^verbatim>\<open>for k, v in data.items()\<close> (lines 15 to 26) and \<open>list_loop\<close> the loop
  \<^verbatim>\<open>for i, item in enumerate(...)\<close>, which the source writes twice with the same body:
  over a list that is a field's value, under \<^verbatim>\<open>new_key\<close> (lines 20 to 24), and over
  a list that is \<^verbatim>\<open>data\<close> itself, under \<^verbatim>\<open>parent_key\<close> (lines 28 to 32). Each loop
  returns what it adds to \<^verbatim>\<open>items\<close>. \<^verbatim>\<open>if parent_key\<close> tests that the string is not
  empty.
\<close>

fun flatten_json :: "'n json \<Rightarrow> string \<Rightarrow> string \<Rightarrow> 'n items"
  and dict_loop :: "'n items \<Rightarrow> string \<Rightarrow> string \<Rightarrow> 'n items"
  and list_loop :: "'n json list \<Rightarrow> nat \<Rightarrow> string \<Rightarrow> string \<Rightarrow> 'n items"
where
  "flatten_json (JObject kvs) parent_key sep = dict (dict_loop kvs parent_key sep)"
| "flatten_json (JArray xs) parent_key sep = dict (list_loop xs 0 parent_key sep)"
| "flatten_json data parent_key sep = dict [(parent_key, data)]"
| "dict_loop [] parent_key sep = []"
| "dict_loop ((k, v) # rest) parent_key sep =
     (let new_key = (if parent_key \<noteq> [] then parent_key @ sep @ k else k) in
        (case v of
           JObject _ \<Rightarrow> flatten_json v new_key sep
         | JArray xs \<Rightarrow> list_loop xs 0 new_key sep
         | _ \<Rightarrow> [(new_key, v)]))
     @ dict_loop rest parent_key sep"
| "list_loop [] i prefix sep = []"
| "list_loop (item # rest) i prefix sep =
     (case item of
        JObject _ \<Rightarrow> flatten_json item (prefix @ sep @ str i) sep
      | _ \<Rightarrow> [(prefix @ sep @ str i, item)])
     @ list_loop rest (Suc i) prefix sep"

text \<open>
  The leaves of a value in the order the traversal meets them, each with the key its
  path gives: the traversal of \<open>flatten_json\<close> with no \<^verbatim>\<open>dict\<close> built on the way. It is
  the specification's notion of "leaf path" and "later-encountered"; the program does
  not compute it.
\<close>

fun leaf_items :: "'n json \<Rightarrow> string \<Rightarrow> string \<Rightarrow> 'n items"
  and field_leaves :: "'n items \<Rightarrow> string \<Rightarrow> string \<Rightarrow> 'n items"
  and elem_leaves :: "'n json list \<Rightarrow> nat \<Rightarrow> string \<Rightarrow> string \<Rightarrow> 'n items"
where
  "leaf_items (JObject kvs) parent_key sep = field_leaves kvs parent_key sep"
| "leaf_items (JArray xs) parent_key sep = elem_leaves xs 0 parent_key sep"
| "leaf_items data parent_key sep = [(parent_key, data)]"
| "field_leaves [] parent_key sep = []"
| "field_leaves ((k, v) # rest) parent_key sep =
     (let new_key = (if parent_key \<noteq> [] then parent_key @ sep @ k else k) in
        (case v of
           JObject _ \<Rightarrow> leaf_items v new_key sep
         | JArray xs \<Rightarrow> elem_leaves xs 0 new_key sep
         | _ \<Rightarrow> [(new_key, v)]))
     @ field_leaves rest parent_key sep"
| "elem_leaves [] i prefix sep = []"
| "elem_leaves (item # rest) i prefix sep =
     (case item of
        JObject _ \<Rightarrow> leaf_items item (prefix @ sep @ str i) sep
      | _ \<Rightarrow> [(prefix @ sep @ str i, item)])
     @ elem_leaves rest (Suc i) prefix sep"

text \<open>No array of the document has an array as a direct element.\<close>

fun arrays_flat :: "'n json \<Rightarrow> bool"
  and fields_flat :: "'n items \<Rightarrow> bool"
  and elems_flat :: "'n json list \<Rightarrow> bool"
where
  "arrays_flat (JObject kvs) = fields_flat kvs"
| "arrays_flat (JArray xs) = elems_flat xs"
| "arrays_flat data = True"
| "fields_flat [] = True"
| "fields_flat ((k, v) # rest) = (arrays_flat v \<and> fields_flat rest)"
| "elems_flat [] = True"
| "elems_flat (item # rest) = (\<not> is_list item \<and> arrays_flat item \<and> elems_flat rest)"

section \<open>The tabular result\<close>

text \<open>
  The table that \<^verbatim>\<open>json_to_csv\<close> returns: the column names in order and the rows in
  order, each row one cell per column; \<open>None\<close> is the empty cell of a row that has no
  value for the column.
\<close>

record 'n dataframe =
  columns :: "string list"
  rows :: "'n json option list list"

text \<open>The keys of a list in first-seen order, as the specification words the column order.\<close>

fun first_seen :: "'k list \<Rightarrow> 'k list" where
  "first_seen [] = []"
| "first_seen (k # ks) = k # filter (\<lambda>x. x \<noteq> k) (first_seen ks)"

text \<open>
  Modelled from the spec: \<^verbatim>\<open>pandas.DataFrame\<close> is a library and not in the repository.
  For a list of records the specification gives "column set = ordered union of all
  record keys across all records; one row per record, missing keys rendered empty".
  \<open>union_keys\<close> adds each key that is not yet a column at the end.
\<close>

fun union_keys :: "'k list \<Rightarrow> 'k list \<Rightarrow> 'k list" where
  "union_keys cols [] = cols"
| "union_keys cols (k # ks) = union_keys (if k \<in> set cols then cols else cols @ [k]) ks"

definition DataFrame_records :: "'n items list \<Rightarrow> 'n dataframe" where
  "DataFrame_records recs =
     (let cols = union_keys [] (concat (map (map fst) recs)) in
        \<lparr>columns = cols, rows = map (\<lambda>r. map (map_of r) cols) recs\<rparr>)"

text \<open>
  Modelled from the spec: \<^verbatim>\<open>pandas.DataFrame\<close> applied to a \<^verbatim>\<open>dict\<close> of columns, the
  call \<^verbatim>\<open>pd.DataFrame({"value": [data]})\<close>: "a single column named value and a single
  row containing that scalar". The columns are the keys; row \<open>i\<close> holds the \<open>i\<close>-th
  entry of each column.
\<close>

definition DataFrame_columns :: "(string \<times> 'n json list) list \<Rightarrow> 'n dataframe" where
  "DataFrame_columns cols =
     \<lparr>columns = map fst cols, rows = transpose (map (\<lambda>(k, vs). map Some vs) cols)\<rparr>"

text \<open>
  Modelled from the spec: \<^verbatim>\<open>pandas.json_normalize\<close> is a library and not in the
  repository; the specification gives "nested objects become dotted-path columns, nested
  arrays become columns holding the raw sub-structure", one row per element.
\<close>

fun nested_to_record :: "'n json \<Rightarrow> string \<Rightarrow> 'n items"
  and nested_fields :: "'n items \<Rightarrow> string \<Rightarrow> 'n items"
where
  "nested_to_record (JObject kvs) prefix = nested_fields kvs prefix"
| "nested_to_record v prefix = [(prefix, v)]"
| "nested_fields [] prefix = []"
| "nested_fields ((k, v) # rest) prefix =
     nested_to_record v (if prefix = [] then k else prefix @ ''.'' @ k)
     @ nested_fields rest prefix"

text \<open>
  What the program takes from outside the repository and the specification does not
  describe: \<^verbatim>\<open>json.loads\<close>, which raises \<^verbatim>\<open>JSONDecodeError\<close> on text that is not JSON,
  and what \<^verbatim>\<open>pandas.json_normalize\<close> and \<^verbatim>\<open>pandas.DataFrame\<close> do with a list that has
  an element that is not an object. Every one of them may raise.
\<close>

datatype exn = JSONDecodeError string | Exception string

record 'n library =
  json_loads :: "string \<Rightarrow> exn + 'n json"
  json_normalize_other :: "'n json list \<Rightarrow> exn + 'n dataframe"
  DataFrame_other :: "'n json list \<Rightarrow> exn + 'n dataframe"

text \<open>
  Modelled from the spec: \<^verbatim>\<open>pd.json_normalize(data)\<close> and \<^verbatim>\<open>pd.DataFrame(data)\<close> on a
  list of parsed values, neither in the repository. On a list of objects the first
  gives one row per element, with "nested objects" as "dotted-path columns", and the
  second "a literal one-column-per-object-key tabularization without deep expansion
  (each top-level field becomes a column; nested values are stored as-is)". On any other
  list they do what the library does.
\<close>

definition pd_json_normalize :: "'n library \<Rightarrow> 'n json list \<Rightarrow> exn + 'n dataframe" where
  "pd_json_normalize lib data =
     (if list_all is_dict data
      then Inr (DataFrame_records (map (\<lambda>x. dict (nested_to_record x [])) data))
      else json_normalize_other lib data)"

definition pd_DataFrame :: "'n library \<Rightarrow> 'n json list \<Rightarrow> exn + 'n dataframe" where
  "pd_DataFrame lib data =
     (if list_all is_dict data
      then Inr (DataFrame_records (map items_of data))
      else DataFrame_other lib data)"

section \<open>The converter\<close>

text \<open>
  \<^verbatim>\<open>json_to_csv(json_data, flatten_nested=True, normalize_data=True)\<close>. The result is
  the list of messages given to \<^verbatim>\<open>st.error\<close> and the value returned, \<open>None\<close> for
  Python's \<^verbatim>\<open>None\<close>. \<open>parse_input\<close> is lines 44 to 47, \<open>build_frame\<close> lines 50 to 73
  and \<open>handle\<close> the two \<^verbatim>\<open>except\<close> clauses.
\<close>

definition parse_input :: "'n library \<Rightarrow> 'n json \<Rightarrow> exn + 'n json" where
  "parse_input lib json_data =
     (case json_data of JString s \<Rightarrow> json_loads lib s | _ \<Rightarrow> Inr json_data)"

definition build_frame :: "'n library \<Rightarrow> 'n json \<Rightarrow> bool \<Rightarrow> bool \<Rightarrow> exn + 'n dataframe" where
  "build_frame lib data flatten_nested normalize_data =
     (case data of
        JArray xs \<Rightarrow>
          (if flatten_nested
           then Inr (DataFrame_records
                  (map (\<lambda>item. if is_dict item then flatten_json item [] ''_''
                                else [(''value'', item)]) xs))
           else if normalize_data then pd_json_normalize lib xs else pd_DataFrame lib xs)
      | JObject kvs \<Rightarrow>
          (if flatten_nested
           then Inr (DataFrame_records [flatten_json data [] ''_''])
           else if normalize_data then pd_json_normalize lib [data]
           else pd_DataFrame lib [data])
      | _ \<Rightarrow> Inr (DataFrame_columns [(''value'', [data])]))"

fun handle :: "exn \<Rightarrow> string list \<times> 'n dataframe option" where
  "handle (JSONDecodeError msg) = ([''Invalid JSON format: '' @ msg], None)"
| "handle (Exception msg) = ([''Error converting JSON to CSV: '' @ msg], None)"

definition json_to_csv ::
  "'n library \<Rightarrow> 'n json \<Rightarrow> bool \<Rightarrow> bool \<Rightarrow> string list \<times> 'n dataframe option" where
  "json_to_csv lib json_data flatten_nested normalize_data =
     (case parse_input lib json_data of
        Inl e \<Rightarrow> handle e
      | Inr data \<Rightarrow>
          (case build_frame lib data flatten_nested normalize_data of
             Inl e \<Rightarrow> handle e
           | Inr df \<Rightarrow> ([], Some df)))"

section \<open>JSON text\<close>

text \<open>
  The grammar of a JSON text (RFC 8259): what the specification calls "syntactically
  valid JSON". The program has no such test of its own; it hands the text to
  \<^verbatim>\<open>json.loads\<close>. \<open>CHR 0x22\<close> is the quotation mark and \<open>CHR 0x5C\<close> the reverse solidus.
\<close>

definition is_ws :: "char \<Rightarrow> bool" where
  "is_ws c = (c \<in> set [CHR 0x20, CHR 0x09, CHR 0x0A, CHR 0x0D])"

definition is_dec :: "char \<Rightarrow> bool" where
  "is_dec c = (c \<in> set ''0123456789'')"

definition is_hex :: "char \<Rightarrow> bool" where
  "is_hex c = (c \<in> set ''0123456789abcdefABCDEF'')"

definition is_control :: "char \<Rightarrow> bool" where
  "is_control c = ((of_char c :: nat) < 32)"

definition skip_ws :: "string \<Rightarrow> string" where
  "skip_ws s = dropWhile is_ws s"

text \<open>
  \<open>number = [ minus ] int [ frac ] [ exp ]\<close>. Each recogniser returns the text that
  follows what it accepts, \<open>None\<close> when it accepts nothing.
\<close>

definition json_digits :: "string \<Rightarrow> string option" where
  "json_digits s =
     (case s of [] \<Rightarrow> None
      | c # r \<Rightarrow> if is_dec c then Some (dropWhile is_dec r) else None)"

definition json_int :: "string \<Rightarrow> string option" where
  "json_int s =
     (case s of [] \<Rightarrow> None
      | c # r \<Rightarrow> if c = CHR ''0'' then Some r
                else if is_dec c then Some (dropWhile is_dec r) else None)"

definition json_frac :: "string \<Rightarrow> string option" where
  "json_frac s =
     (case s of [] \<Rightarrow> Some []
      | c # r \<Rightarrow> if c = CHR ''.'' then json_digits r else Some s)"

definition json_exp :: "string \<Rightarrow> string option" where
  "json_exp s =
     (case s of [] \<Rightarrow> Some []
      | c # r \<Rightarrow>
          if c = CHR ''e'' \<or> c = CHR ''E''
          then (case r of [] \<Rightarrow> None
                | d # r' \<Rightarrow> if d = CHR ''+'' \<or> d = CHR ''-'' then json_digits r'
                            else json_digits r)
          else Some s)"

definition json_number :: "string \<Rightarrow> string option" where
  "json_number s =
     (case json_int (case s of [] \<Rightarrow> [] | c # r \<Rightarrow> if c = CHR ''-'' then r else s) of
        None \<Rightarrow> None
      | Some r \<Rightarrow> (case json_frac r of None \<Rightarrow> None | Some r' \<Rightarrow> json_exp r'))"

text \<open>
  The characters of a string after its opening quotation mark, up to the closing one:
  no control character, and a reverse solidus only in an escape.
\<close>

fun json_string :: "string \<Rightarrow> string option" where
  "json_string [] = None"
| "json_string (c # r) =
     (if c = CHR 0x22 then Some r
      else if c = CHR 0x5C then
        (case r of [] \<Rightarrow> None
         | e # r' \<Rightarrow>
             if e \<in> set [CHR 0x22, CHR 0x5C, CHR ''/'', CHR ''b'', CHR ''f'', CHR ''n'', CHR ''r'', CHR ''t'']
             then json_string r'
             else if e = CHR ''u'' \<and> 4 \<le> length r' \<and> list_all is_hex (take 4 r')
             then json_string (drop 4 r')
             else None)
      else if is_control c then None
      else json_string r)"

text \<open>
  \<open>value = false / null / true / object / array / number / string\<close>, with the white space
  the grammar allows around the structural characters. The first argument bounds the
  depth of the recursion; \<open>is_json_text\<close> gives it more than the text can use.
\<close>

definition json_literal :: "string \<Rightarrow> string \<Rightarrow> string option" where
  "json_literal w s = (if take (length w) s = w then Some (drop (length w) s) else None)"

fun json_value :: "nat \<Rightarrow> string \<Rightarrow> string option"
  and json_elements :: "nat \<Rightarrow> string \<Rightarrow> string option"
  and json_members :: "nat \<Rightarrow> string \<Rightarrow> string option"
where
  "json_value 0 s = None"
| "json_value (Suc n) s =
     (case skip_ws s of [] \<Rightarrow> None
      | c # r \<Rightarrow>
          if c = CHR ''{'' then
            (case skip_ws r of [] \<Rightarrow> None
             | d # r' \<Rightarrow> if d = CHR ''}'' then Some r' else json_members n (d # r'))
          else if c = CHR ''['' then
            (case skip_ws r of [] \<Rightarrow> None
             | d # r' \<Rightarrow> if d = CHR '']'' then Some r' else json_elements n (d # r'))
          else if c = CHR 0x22 then json_string r
          else if c = CHR ''t'' then json_literal ''true'' (c # r)
          else if c = CHR ''f'' then json_literal ''false'' (c # r)
          else if c = CHR ''n'' then json_literal ''null'' (c # r)
          else json_number (c # r))"
| "json_elements 0 s = None"
| "json_elements (Suc n) s =
     (case json_value n s of None \<Rightarrow> None
      | Some r \<Rightarrow>
          (case skip_ws r of [] \<Rightarrow> None
           | c # r' \<Rightarrow> if c = CHR '','' then json_elements n r'
                       else if c = CHR '']'' then Some r' else None))"
| "json_members 0 s = None"
| "json_members (Suc n) s =
     (case skip_ws s of [] \<Rightarrow> None
      | c # r \<Rightarrow>
          if c = CHR 0x22 then
            (case json_string r of None \<Rightarrow> None
             | Some r1 \<Rightarrow>
                 (case skip_ws r1 of [] \<Rightarrow> None
                  | c1 # r2 \<Rightarrow>
                      if c1 = CHR '':'' then
                        (case json_value n r2 of None \<Rightarrow> None
                         | Some r3 \<Rightarrow>
                             (case skip_ws r3 of [] \<Rightarrow> None
                              | c3 # r4 \<Rightarrow> if c3 = CHR '','' then json_members n r4
                                           else if c3 = CHR ''}'' then Some r4 else None))
                      else None))
          else None)"

definition is_json_text :: "string \<Rightarrow> bool" where
  "is_json_text s =
     (case json_value (2 * length s + 2) s of None \<Rightarrow> False | Some r \<Rightarrow> skip_ws r = [])"

text \<open>
  The numbers of Python, with the three floats that are not numbers of JSON, and
  \<^verbatim>\<open>json.loads\<close> with its default arguments on the three texts that it accepts beyond
  the grammar (its documentation: \<^verbatim>\<open>parse_constant\<close> is called for \<^verbatim>\<open>-Infinity\<close>,
  \<^verbatim>\<open>Infinity\<close> and \<^verbatim>\<open>NaN\<close>, and by default they become the floats). This library is
  only run on these texts; its parser rejects the others.
\<close>

datatype py_number = PyInt int | PyNaN | PyInfinity | PyNegInfinity

definition constants_library :: "py_number library" where
  "constants_library =
     \<lparr>json_loads = (\<lambda>s. if s = ''NaN'' then Inr (JNumber PyNaN)
                         else if s = ''Infinity'' then Inr (JNumber PyInfinity)
                         else if s = ''-Infinity'' then Inr (JNumber PyNegInfinity)
                         else Inl (JSONDecodeError ''Expecting value: line 1 column 1 (char 0)'')),
      json_normalize_other = (\<lambda>data. Inl (Exception ''not a list of objects'')),
      DataFrame_other = (\<lambda>data. Inl (Exception ''not a list of objects''))\<rparr>"

text \<open>
  A library to run the converter on examples: its parser knows three texts and rejects
  every other one; its \<^verbatim>\<open>pandas\<close> rejects a list that is not a list of objects.
\<close>

definition example_library :: "int library" where
  "example_library =
     \<lparr>json_loads = (\<lambda>s. if s = ''42'' then Inr (JNumber 42)
                         else if s = ''{}'' then Inr (JObject [])
                         else if s = ''[{}]'' then Inr (JArray [JObject []])
                         else Inl (JSONDecodeError ''Expecting value: line 1 column 1 (char 0)'')),
      json_normalize_other = (\<lambda>data. Inl (Exception ''not a list of objects'')),
      DataFrame_other = (\<lambda>data. Inl (Exception ''not a list of objects''))\<rparr>"

section \<open>Properties of \<open>dict\<close>\<close>

declare str.simps [simp del]

lemma map_of_dict_setitem: "map_of (dict_setitem d k v) x = ((map_of d)(k \<mapsto> v)) x"
  by (induction d) auto

lemma map_of_foldl_setitem:
  "map_of (foldl (\<lambda>d (k, v). dict_setitem d k v) d its) = map_of d ++ map_of (rev its)"
proof (induction its arbitrary: d)
  case Nil
  show ?case by simp
next
  case (Cons kv its)
  obtain k v where kv: "kv = (k, v)" by (cases kv)
  have "(map_of (dict_setitem d k v) ++ map_of (rev its)) x
        = (map_of d ++ map_of (rev (kv # its))) x" for x
    by (simp add: kv map_add_def map_of_dict_setitem split: option.splits)
  then have "map_of (dict_setitem d k v) ++ map_of (rev its) = map_of d ++ map_of (rev (kv # its))"
    by (rule ext)
  then show ?case
    using Cons.IH [of "dict_setitem d k v"] by (simp add: kv)
qed

lemma map_of_dict: "map_of (dict its) = map_of (rev its)"
  by (simp add: dict_def map_of_foldl_setitem)

lemma keys_dict_setitem:
  "map fst (dict_setitem d k v) = (if k \<in> set (map fst d) then map fst d else map fst d @ [k])"
  by (induction d) (force simp: image_iff)+

lemma set_dict_setitem: "set (dict_setitem d k v) \<subseteq> insert (k, v) (set d)"
  by (induction d) (auto split: if_splits)

lemma dict_setitem_fresh: "k \<notin> set (map fst d) \<Longrightarrow> dict_setitem d k v = d @ [(k, v)]"
  by (induction d) auto

lemma keys_foldl_setitem:
  "map fst (foldl (\<lambda>d (k, v). dict_setitem d k v) d its) = union_keys (map fst d) (map fst its)"
proof (induction its arbitrary: d)
  case Nil
  show ?case by simp
next
  case (Cons kv its)
  obtain k v where kv: "kv = (k, v)" by (cases kv)
  show ?case
    using Cons.IH [of "dict_setitem d k v"] by (simp add: kv keys_dict_setitem)
qed

lemma keys_dict: "map fst (dict its) = union_keys [] (map fst its)"
  using keys_foldl_setitem [of "[]" its] by (simp add: dict_def)

lemma set_foldl_setitem:
  "set (foldl (\<lambda>d (k, v). dict_setitem d k v) d its) \<subseteq> set d \<union> set its"
proof (induction its arbitrary: d)
  case Nil
  show ?case by simp
next
  case (Cons kv its)
  obtain k v where kv: "kv = (k, v)" by (cases kv)
  show ?case
    using Cons.IH [of "dict_setitem d k v"] set_dict_setitem [of d k v]
    by (auto simp: kv)
qed

lemma set_dict: "set (dict its) \<subseteq> set its"
  using set_foldl_setitem [of "[]" its] by (simp add: dict_def)

lemma foldl_setitem_distinct:
  "distinct (map fst (d @ its)) \<Longrightarrow> foldl (\<lambda>d (k, v). dict_setitem d k v) d its = d @ its"
proof (induction its arbitrary: d)
  case Nil
  show ?case by simp
next
  case (Cons kv its)
  obtain k v where kv: "kv = (k, v)" by (cases kv)
  from Cons.prems have fresh: "k \<notin> set (map fst d)" and d': "distinct (map fst ((d @ [(k, v)]) @ its))"
    by (auto simp: kv)
  show ?case
    using Cons.IH [OF d'] by (simp add: kv dict_setitem_fresh [OF fresh])
qed

lemma dict_distinct: "distinct (map fst its) \<Longrightarrow> dict its = its"
  using foldl_setitem_distinct [of "[]" its] by (simp add: dict_def)

section \<open>Properties of first-seen order\<close>

lemma set_first_seen: "set (first_seen ks) = set ks"
  by (induction ks) auto

lemma distinct_first_seen: "distinct (first_seen ks)"
  by (induction ks) (auto simp: set_first_seen)

lemma union_keys_first_seen:
  "union_keys cols ks = cols @ filter (\<lambda>x. x \<notin> set cols) (first_seen ks)"
proof (induction ks arbitrary: cols)
  case Nil
  show ?case by simp
next
  case (Cons k ks)
  show ?case
  proof (cases "k \<in> set cols")
    case True
    have "filter (\<lambda>x. x \<notin> set cols) (filter (\<lambda>x. x \<noteq> k) (first_seen ks))
          = filter (\<lambda>x. x \<notin> set cols) (first_seen ks)"
      using True by (auto intro: filter_cong)
    with True show ?thesis by (simp add: Cons.IH)
  next
    case False
    have "filter (\<lambda>x. x \<notin> set (cols @ [k])) (first_seen ks)
          = filter (\<lambda>x. x \<notin> set cols) (filter (\<lambda>x. x \<noteq> k) (first_seen ks))"
      by (auto intro: filter_cong)
    with False show ?thesis by (simp add: Cons.IH)
  qed
qed

lemma union_keys_Nil: "union_keys [] ks = first_seen ks"
  by (simp add: union_keys_first_seen)


section \<open>Properties of the traversal\<close>

lemma distinct_keys_dict: "distinct (map fst (dict its))"
  by (simp add: keys_dict union_keys_Nil distinct_first_seen)

lemma distinct_keys_flatten_json: "distinct (map fst (flatten_json v p sep))"
  by (cases v) (simp_all add: distinct_keys_dict)

lemma map_of_rev_distinct: "distinct (map fst d) \<Longrightarrow> map_of (rev d) = map_of d"
  by (rule map_of_inject_set[THEN iffD2]) (auto simp: rev_map [symmetric])

lemma map_of_rev_flatten_json:
  "map_of (rev (flatten_json v p sep)) = map_of (flatten_json v p sep)"
  by (rule map_of_rev_distinct [OF distinct_keys_flatten_json])

lemma map_of_flatten_leaves:
  fixes v :: "'n json" and kvs :: "'n items" and xs :: "'n json list"
  shows
  "map_of (flatten_json v p sep) = map_of (rev (leaf_items v p sep))"
  "map_of (rev (dict_loop kvs p sep)) = map_of (rev (field_leaves kvs p sep))"
  "map_of (rev (list_loop xs i p sep)) = map_of (rev (elem_leaves xs i p sep))"
proof (induction v p sep and kvs p sep and xs i p sep rule: flatten_json_dict_loop_list_loop.induct)
  case (5 k v rest parent_key sep)
  then show ?case
    by (cases v) (simp_all add: Let_def map_of_rev_flatten_json del: flatten_json.simps leaf_items.simps)
next
  case (7 item rest i prefix sep)
  then show ?case
    by (cases item) (simp_all add: map_of_rev_flatten_json del: flatten_json.simps leaf_items.simps)
qed (simp_all add: map_of_dict)

lemma set_flatten_leaves:
  fixes v :: "'n json" and kvs :: "'n items" and xs :: "'n json list"
  shows
  "set (flatten_json v p sep) \<subseteq> set (leaf_items v p sep)"
  "set (dict_loop kvs p sep) \<subseteq> set (field_leaves kvs p sep)"
  "set (list_loop xs i p sep) \<subseteq> set (elem_leaves xs i p sep)"
proof (induction v p sep and kvs p sep and xs i p sep rule: flatten_json_dict_loop_list_loop.induct)
  case (1 kvs parent_key sep)
  then show ?case using set_dict [of "dict_loop kvs parent_key sep"] by auto
next
  case (2 xs parent_key sep)
  then show ?case using set_dict [of "list_loop xs 0 parent_key sep"] by auto
next
  case (5 k v rest parent_key sep)
  then show ?case
    by (cases v) (fastforce simp: Let_def simp del: flatten_json.simps leaf_items.simps)+
next
  case (7 item rest i prefix sep)
  then show ?case
    by (cases item) (fastforce simp del: flatten_json.simps leaf_items.simps)+
qed (simp_all add: dict_def)

lemma leaves_not_dict:
  fixes v :: "'n json" and kvs :: "'n items" and xs :: "'n json list"
  shows
  "\<forall>kv \<in> set (leaf_items v p sep). \<not> is_dict (snd kv)"
  "\<forall>kv \<in> set (field_leaves kvs p sep). \<not> is_dict (snd kv)"
  "\<forall>kv \<in> set (elem_leaves xs i p sep). \<not> is_dict (snd kv)"
proof (induction v p sep and kvs p sep and xs i p sep rule: leaf_items_field_leaves_elem_leaves.induct)
  case (5 k v rest parent_key sep)
  then show ?case
    by (cases v) (fastforce simp: Let_def simp del: leaf_items.simps)+
next
  case (7 item rest i prefix sep)
  then show ?case
    by (cases item) (fastforce simp del: leaf_items.simps)+
qed simp_all

lemma leaves_scalar:
  fixes v :: "'n json" and kvs :: "'n items" and xs :: "'n json list"
  shows
  "arrays_flat v \<Longrightarrow> \<forall>kv \<in> set (leaf_items v p sep). is_scalar (snd kv)"
  "fields_flat kvs \<Longrightarrow> \<forall>kv \<in> set (field_leaves kvs p sep). is_scalar (snd kv)"
  "elems_flat xs \<Longrightarrow> \<forall>kv \<in> set (elem_leaves xs i p sep). is_scalar (snd kv)"
proof (induction v p sep and kvs p sep and xs i p sep rule: leaf_items_field_leaves_elem_leaves.induct)
  case (5 k v rest parent_key sep)
  then show ?case
    by (cases v) (fastforce simp: Let_def is_scalar_def simp del: leaf_items.simps)+
next
  case (7 item rest i prefix sep)
  then show ?case
    by (cases item) (fastforce simp: is_scalar_def simp del: leaf_items.simps)+
qed (simp_all add: is_scalar_def)

lemma dict_loop_scalars:
  "\<forall>kv \<in> set kvs. is_scalar (snd kv) \<Longrightarrow> dict_loop kvs [] sep = kvs"
proof (induction kvs)
  case Nil
  show ?case by simp
next
  case (Cons kv kvs)
  obtain k v where kv: "kv = (k, v)" by (cases kv)
  with Cons show ?case by (cases v) (simp_all add: is_scalar_def)
qed

lemma field_leaves_object:
  "(k, JObject ob) \<in> set kvs \<Longrightarrow>
   set (leaf_items (JObject ob) (if p \<noteq> [] then p @ sep @ k else k) sep)
     \<subseteq> set (field_leaves kvs p sep)"
  by (induction kvs) (auto simp: Let_def)

lemma field_leaves_array:
  "(k, JArray xs) \<in> set kvs \<Longrightarrow>
   set (elem_leaves xs 0 (if p \<noteq> [] then p @ sep @ k else k) sep)
     \<subseteq> set (field_leaves kvs p sep)"
  by (induction kvs) (auto simp: Let_def)

lemma field_leaves_scalar:
  "(k, v) \<in> set kvs \<Longrightarrow> is_scalar v \<Longrightarrow>
   ((if p \<noteq> [] then p @ sep @ k else k), v) \<in> set (field_leaves kvs p sep)"
proof (induction kvs)
  case Nil
  then show ?case by simp
next
  case (Cons kv kvs)
  show ?case
  proof (cases "kv = (k, v)")
    case True
    with Cons.prems(2) show ?thesis by (cases v) (auto simp: Let_def is_scalar_def)
  next
    case False
    with Cons have IH: "((if p \<noteq> [] then p @ sep @ k else k), v) \<in> set (field_leaves kvs p sep)"
      by auto
    obtain k' v' where "kv = (k', v')" by (cases kv)
    with IH show ?thesis by (auto simp: Let_def)
  qed
qed

lemma elem_leaves_object:
  "i < length xs \<Longrightarrow> xs ! i = JObject ob \<Longrightarrow>
   set (leaf_items (JObject ob) (p @ sep @ str (n + i)) sep) \<subseteq> set (elem_leaves xs n p sep)"
proof (induction xs arbitrary: i n)
  case Nil
  then show ?case by simp
next
  case (Cons x xs)
  show ?case
  proof (cases i)
    case 0
    with Cons.prems show ?thesis by auto
  next
    case (Suc m)
    with Cons.prems have "m < length xs" "xs ! m = JObject ob" by auto
    from Cons.IH [OF this, of "Suc n"] Suc show ?thesis by auto
  qed
qed

lemma map_of_rev_last:
  assumes "j < length L" and "\<forall>m. j < m \<and> m < length L \<longrightarrow> fst (L ! m) \<noteq> fst (L ! j)"
  shows "map_of (rev L) (fst (L ! j)) = Some (snd (L ! j))"
proof -
  have split: "L = take j L @ (L ! j) # drop (Suc j) L"
    using assms(1) by (rule id_take_nth_drop)
  have "fst (L ! j) \<notin> fst ` set (drop (Suc j) L)"
  proof
    assume "fst (L ! j) \<in> fst ` set (drop (Suc j) L)"
    then obtain kv where kv: "kv \<in> set (drop (Suc j) L)" "fst kv = fst (L ! j)" by auto
    then obtain m where m: "m < length (drop (Suc j) L)" "drop (Suc j) L ! m = kv"
      by (auto simp: in_set_conv_nth)
    then have "Suc j + m < length L" "L ! (Suc j + m) = kv" by auto
    with assms(2) kv(2) show False by (metis less_add_Suc1 add_Suc)
  qed
  then have none: "map_of (rev (drop (Suc j) L)) (fst (L ! j)) = None"
    by (simp add: map_of_eq_None_iff)
  have "map_of (rev L) = map_of (rev (drop (Suc j) L) @ (L ! j) # rev (take j L))"
    by (subst split) simp
  then show ?thesis
    using none by (cases "L ! j") (simp add: map_add_def)
qed


section \<open>Properties of the tables\<close>

lemma columns_DataFrame_records:
  "columns (DataFrame_records recs) = first_seen (concat (map (map fst) recs))"
  by (simp add: DataFrame_records_def Let_def union_keys_Nil)

lemma rows_DataFrame_records:
  "rows (DataFrame_records recs)
     = map (\<lambda>r. map (map_of r) (columns (DataFrame_records recs))) recs"
  by (simp add: DataFrame_records_def Let_def)

lemma length_first_seen: "length (first_seen ks) = card (set ks)"
  using distinct_card [OF distinct_first_seen, of ks] by (simp add: set_first_seen)

lemma build_frame_scalar:
  "is_scalar data \<Longrightarrow>
   build_frame lib data flatten_nested normalize_data
     = Inr \<lparr>columns = [''value''], rows = [[Some data]]\<rparr>"
  by (cases data) (simp_all add: build_frame_def DataFrame_columns_def is_scalar_def)

lemma build_frame_object_as_list:
  "build_frame lib (JObject kvs) flatten_nested normalize_data
     = build_frame lib (JArray [JObject kvs]) flatten_nested normalize_data"
  by (simp add: build_frame_def)

lemma build_frame_object_one_row:
  "\<exists>df. build_frame lib (JObject kvs) flatten_nested normalize_data = Inr df
        \<and> length (rows df) = 1"
  by (simp add: build_frame_def pd_json_normalize_def pd_DataFrame_def rows_DataFrame_records)

lemma build_frame_flatten_objects:
  assumes "list_all is_dict xs"
  shows "build_frame lib (JArray xs) True normalize_data
           = Inr (DataFrame_records (map (\<lambda>x. flatten_json x [] ''_'') xs))"
proof -
  have "map (\<lambda>item. if is_dict item then flatten_json item [] ''_'' else [(''value'', item)]) xs
          = map (\<lambda>x. flatten_json x [] ''_'') xs"
    using assms by (simp add: list_all_iff)
  then show ?thesis by (simp add: build_frame_def del: map_eq_conv)
qed

section \<open>The flattener's claims\<close>

text \<open>
  Claim C9. Flattening an object whose values are all scalars, with the empty prefix, gives
  the object back: the same keys in the same order with the same values. The object is a
  Python \<^verbatim>\<open>dict\<close>, so its keys are distinct.
\<close>
theorem flatten_json_flat_object_identity:
  assumes "distinct (map fst kvs)" and "\<forall>kv \<in> set kvs. is_scalar (snd kv)"
  shows "flatten_json (JObject kvs) [] sep = kvs"
  using assms by (simp add: dict_loop_scalars dict_distinct)

theorem flatten_json_flat_object_identity_witness:
  "distinct (map fst [(''name'', JString ''John''), (''age'', JNumber (30::int)), (''city'', JString ''New York'')])
   \<and> list_all (\<lambda>kv. is_scalar (snd kv))
        [(''name'', JString ''John''), (''age'', JNumber (30::int)), (''city'', JString ''New York'')]
   \<and> flatten_json (JObject [(''name'', JString ''John''), (''age'', JNumber (30::int)), (''city'', JString ''New York'')]) [] ''_''
       = [(''name'', JString ''John''), (''age'', JNumber 30), (''city'', JString ''New York'')]"
  using flatten_json_flat_object_identity
    [of "[(''name'', JString ''John''), (''age'', JNumber (30::int)), (''city'', JString ''New York'')]" "''_''"]
  by (simp add: is_scalar_def)

text \<open>
  Claim C2, as amended. No value stored by \<open>flatten_json\<close> is an object. An element of an
  array that is itself an array is stored whole (lines 24 and 32 recurse into objects
  only), so a stored value can be an array; when no array of the document has an array
  as a direct element, every stored value is a scalar.
\<close>
theorem flatten_json_values:
  "(\<forall>kv \<in> set (flatten_json v p sep). \<not> is_dict (snd kv))
   \<and> (arrays_flat v \<longrightarrow> (\<forall>kv \<in> set (flatten_json v p sep). is_scalar (snd kv)))"
  using set_flatten_leaves(1) [of v p sep] leaves_not_dict(1) [of v p sep]
    leaves_scalar(1) [of v p sep]
  by blast

theorem flatten_json_values_witness:
  "arrays_flat (JObject [(''a'', JArray [JNumber (1::int), JObject [(''b'', JNull)]])])
   \<and> list_all (\<lambda>kv. \<not> is_dict (snd kv) \<and> is_scalar (snd kv))
        (flatten_json (JObject [(''a'', JArray [JNumber (1::int), JObject [(''b'', JNull)]])]) [] ''_'')
   \<and> flatten_json (JObject [(''a'', JArray [JNumber (1::int), JObject [(''b'', JNull)]])]) [] ''_''
       = [(''a_0'', JNumber 1), (''a_1_b'', JNull)]"
  using flatten_json_values
    [of "JObject [(''a'', JArray [JNumber (1::int), JObject [(''b'', JNull)]])]" "[]" "''_''"]
  by (simp add: dict_def str.simps digit_char_def)

text \<open>
  Claim C2 as stated fails: the document \<^verbatim>\<open>{"a": [[1]]}\<close> flattens to a record whose value
  under \<^verbatim>\<open>a_0\<close> is the array \<^verbatim>\<open>[1]\<close>.
\<close>

theorem flatten_json_nested_array_counterexample:
  "(''a_0'', JArray [JNumber (1::int)])
     \<in> set (flatten_json (JObject [(''a'', JArray [JArray [JNumber 1]])]) [] ''_'')
   \<and> \<not> is_scalar (JArray [JNumber (1::int)])"
  by (simp add: dict_def str.simps digit_char_def is_scalar_def)


text \<open>
  Claim C7. When two leaves, met at positions \<open>i < j\<close> of the traversal, have the same key
  and no leaf after \<open>j\<close> has it, the result binds the key to the value of the leaf at \<open>j\<close>,
  the later one. \<open>flatten_json\<close> is a total function: it has no failing branch.
\<close>
theorem flatten_json_last_write_wins:
  assumes "i < j" and "j < length (leaf_items v p sep)"
    and "fst (leaf_items v p sep ! i) = fst (leaf_items v p sep ! j)"
    and "\<forall>m. j < m \<and> m < length (leaf_items v p sep)
           \<longrightarrow> fst (leaf_items v p sep ! m) \<noteq> fst (leaf_items v p sep ! j)"
  shows "map_of (flatten_json v p sep) (fst (leaf_items v p sep ! j))
           = Some (snd (leaf_items v p sep ! j))"
  using map_of_rev_last [OF assms(2) assms(4)] by (simp add: map_of_flatten_leaves(1))

theorem flatten_json_last_write_wins_witness:
  "leaf_items (JObject [(''a'', JObject [(''b'', JNumber (1::int))]), (''a_b'', JNumber 2)]) [] ''_''
     = [(''a_b'', JNumber 1), (''a_b'', JNumber 2)]
   \<and> map_of (flatten_json (JObject [(''a'', JObject [(''b'', JNumber (1::int))]), (''a_b'', JNumber 2)]) [] ''_'') ''a_b''
     = Some (JNumber 2)"
proof -
  let ?v = "JObject [(''a'', JObject [(''b'', JNumber (1::int))]), (''a_b'', JNumber 2)]"
  have L: "leaf_items ?v [] ''_'' = [(''a_b'', JNumber 1), (''a_b'', JNumber 2)]"
    by simp
  have "map_of (flatten_json ?v [] ''_'') (fst (leaf_items ?v [] ''_'' ! 1))
          = Some (snd (leaf_items ?v [] ''_'' ! 1))"
    by (rule flatten_json_last_write_wins [of 0 1]) (simp_all only: L, simp_all)
  with L show ?thesis by simp
qed


section \<open>The converter's claims\<close>

text \<open>
  Claim C5. When the root of the parsed input is a scalar (a string, a number, a boolean
  or null), \<open>json_to_csv\<close> reports no error and returns the table with the one column
  \<^verbatim>\<open>value\<close> and the one row that holds the scalar. The table constructor is modelled
  from the specification.
\<close>
theorem json_to_csv_scalar_root:
  assumes "parse_input lib json_data = Inr data" and "is_scalar data"
  shows "json_to_csv lib json_data flatten_nested normalize_data
           = ([], Some \<lparr>columns = [''value''], rows = [[Some data]]\<rparr>)"
  using assms by (simp add: json_to_csv_def build_frame_scalar)

theorem json_to_csv_scalar_root_witness:
  "parse_input example_library (JString ''42'') = Inr (JNumber 42)
   \<and> is_scalar (JNumber (42::int))
   \<and> json_to_csv example_library (JString ''42'') True True
       = ([], Some \<lparr>columns = [''value''], rows = [[Some (JNumber 42)]]\<rparr>)"
  using json_to_csv_scalar_root [of example_library "JString ''42''" "JNumber 42" True True]
  by (simp add: parse_input_def example_library_def is_scalar_def)

text \<open>
  Claim C10. For a scalar root the result does not depend on the two flags: any two
  settings of \<^verbatim>\<open>flatten_nested\<close> and \<^verbatim>\<open>normalize_data\<close> give the same result.
\<close>
theorem json_to_csv_scalar_root_ignores_flags:
  assumes "parse_input lib json_data = Inr data" and "is_scalar data"
  shows "json_to_csv lib json_data f1 n1 = json_to_csv lib json_data f2 n2"
  using assms by (simp add: json_to_csv_def build_frame_scalar)

theorem json_to_csv_scalar_root_ignores_flags_witness:
  "parse_input example_library (JBool True) = Inr (JBool True)
   \<and> is_scalar (JBool True :: int json)
   \<and> json_to_csv example_library (JBool True) True True
       = json_to_csv example_library (JBool True) False False"
  using json_to_csv_scalar_root_ignores_flags
    [of example_library "JBool True" "JBool True" True True False False]
  by (simp add: parse_input_def is_scalar_def)

text \<open>
  Claim C4, as amended. For every input text that \<^verbatim>\<open>json.loads\<close> rejects with
  \<^verbatim>\<open>JSONDecodeError\<close>, the converter does not raise: it reports the message
  \<^verbatim>\<open>Invalid JSON format: \<close> followed by the parser's diagnostic and returns \<^verbatim>\<open>None\<close>, no
  table.
\<close>
theorem json_to_csv_invalid_json:
  assumes "json_loads lib s = Inl (JSONDecodeError msg)"
  shows "json_to_csv lib (JString s) flatten_nested normalize_data
           = ([''Invalid JSON format: '' @ msg], None)"
  using assms by (simp add: json_to_csv_def parse_input_def)

theorem json_to_csv_invalid_json_witness:
  "json_loads example_library ''hello''
     = Inl (JSONDecodeError ''Expecting value: line 1 column 1 (char 0)'')
   \<and> json_to_csv example_library (JString ''hello'') True True
       = ([''Invalid JSON format: Expecting value: line 1 column 1 (char 0)''], None)"
  using json_to_csv_invalid_json
    [of example_library "''hello''" "''Expecting value: line 1 column 1 (char 0)''" True True]
  by (simp add: example_library_def)

text \<open>
  Claim C4 as stated fails: the text \<^verbatim>\<open>NaN\<close> is not a JSON text, \<^verbatim>\<open>json.loads\<close> accepts
  it and gives the float, a scalar root, and line 73 returns the table with the one cell
  that holds it; no error is reported.
\<close>

theorem json_to_csv_invalid_json_counterexample:
  "\<not> is_json_text ''NaN''
   \<and> json_to_csv constants_library (JString ''NaN'') True True
       = ([], Some \<lparr>columns = [''value''], rows = [[Some (JNumber PyNaN)]]\<rparr>)"
proof -
  have "\<not> is_json_text ''NaN''"
    by code_simp
  moreover have "json_to_csv constants_library (JString ''NaN'') True True
       = ([], Some \<lparr>columns = [''value''], rows = [[Some (JNumber PyNaN)]]\<rparr>)"
    by (simp add: json_to_csv_def parse_input_def constants_library_def build_frame_def
        DataFrame_columns_def)
  ultimately show ?thesis by simp
qed

text \<open>
  Claim C6. For an object \<open>o\<close> and any setting of the two flags, converting \<open>o\<close> and
  converting the one-element array \<open>[o]\<close> give the same result, a table of exactly one
  row. The table constructors are modelled from the specification.
\<close>
theorem json_to_csv_object_as_one_element_array:
  assumes "parse_input lib a = Inr (JObject kvs)"
    and "parse_input lib b = Inr (JArray [JObject kvs])"
  shows "json_to_csv lib a flatten_nested normalize_data
           = json_to_csv lib b flatten_nested normalize_data
         \<and> (\<exists>df. json_to_csv lib a flatten_nested normalize_data = ([], Some df)
                \<and> length (rows df) = 1)"
proof -
  obtain df where df: "build_frame lib (JObject kvs) flatten_nested normalize_data = Inr df"
    "length (rows df) = 1"
    using build_frame_object_one_row by blast
  then show ?thesis
    using assms build_frame_object_as_list [of lib kvs flatten_nested normalize_data]
    by (simp add: json_to_csv_def)
qed

theorem json_to_csv_object_as_one_element_array_witness:
  "parse_input example_library (JString ''{}'') = Inr (JObject [])
   \<and> parse_input example_library (JString ''[{}]'') = Inr (JArray [JObject []])
   \<and> json_to_csv example_library (JString ''{}'') False True
       = json_to_csv example_library (JString ''[{}]'') False True
   \<and> (\<exists>df. json_to_csv example_library (JString ''{}'') False True = ([], Some df)
          \<and> length (rows df) = 1)"
proof -
  have a: "parse_input example_library (JString ''{}'') = Inr (JObject [])"
    by (simp add: parse_input_def example_library_def)
  have b: "parse_input example_library (JString ''[{}]'') = Inr (JArray [JObject []])"
    by (simp add: parse_input_def example_library_def)
  show ?thesis
    using a b json_to_csv_object_as_one_element_array [OF a b, of False True] by blast
qed

text \<open>
  Claim C3. For an array whose elements are all objects, \<open>json_to_csv\<close> with
  \<^verbatim>\<open>flatten_nested\<close> set reports no error and returns a table with one row per element;
  the number of columns is the number of distinct flattened keys of all elements, the
  columns stand in first-seen order of the keys, every row has one cell per column, the
  cell of a column the row's record lacks is empty and the cell of a column the record
  has holds the record's value. The table constructor is modelled from the specification.
\<close>
theorem json_to_csv_array_of_objects:
  assumes "parse_input lib json_data = Inr (JArray xs)" and "list_all is_dict xs"
  shows "\<exists>df. json_to_csv lib json_data True normalize_data = ([], Some df)
           \<and> length (rows df) = length xs
           \<and> length (columns df) = card (\<Union>x \<in> set xs. fst ` set (flatten_json x [] ''_''))
           \<and> columns df = first_seen (concat (map (\<lambda>x. map fst (flatten_json x [] ''_'')) xs))
           \<and> (\<forall>i < length xs.
                 length (rows df ! i) = length (columns df)
                 \<and> (\<forall>j < length (columns df).
                       (columns df ! j \<notin> fst ` set (flatten_json (xs ! i) [] ''_'')
                          \<longrightarrow> rows df ! i ! j = None)
                     \<and> (\<forall>v. (columns df ! j, v) \<in> set (flatten_json (xs ! i) [] ''_'')
                          \<longrightarrow> rows df ! i ! j = Some v)))"
proof -
  let ?recs = "map (\<lambda>x. flatten_json x [] ''_'') xs"
  let ?df = "DataFrame_records ?recs"
  have res: "json_to_csv lib json_data True normalize_data = ([], Some ?df)"
    using assms by (simp add: json_to_csv_def build_frame_flatten_objects)
  have cols: "columns ?df = first_seen (concat (map (\<lambda>x. map fst (flatten_json x [] ''_'')) xs))"
    by (simp add: columns_DataFrame_records comp_def)
  have nrows: "length (rows ?df) = length xs"
    by (subst rows_DataFrame_records) simp
  have ncols: "length (columns ?df) = card (\<Union>x \<in> set xs. fst ` set (flatten_json x [] ''_''))"
    by (simp add: cols length_first_seen)
  have row: "rows ?df ! i = map (map_of (flatten_json (xs ! i) [] ''_'')) (columns ?df)"
    if "i < length xs" for i
    using that by (subst rows_DataFrame_records) simp
  have cells: "length (rows ?df ! i) = length (columns ?df)
      \<and> (\<forall>j < length (columns ?df).
            (columns ?df ! j \<notin> fst ` set (flatten_json (xs ! i) [] ''_'')
               \<longrightarrow> rows ?df ! i ! j = None)
          \<and> (\<forall>v. (columns ?df ! j, v) \<in> set (flatten_json (xs ! i) [] ''_'')
               \<longrightarrow> rows ?df ! i ! j = Some v))"
    if "i < length xs" for i
    using row [OF that] distinct_keys_flatten_json [of "xs ! i" "[]" "''_''"]
    by (simp add: map_of_eq_None_iff)
  show ?thesis
    using res cols nrows ncols cells by blast
qed

theorem json_to_csv_array_of_objects_witness:
  "parse_input example_library
     (JArray [JObject [(''id'', JNumber 1), (''address'', JObject [(''city'', JString ''NY'')])],
              JObject [(''id'', JNumber 2), (''tags'', JArray [JString ''x''])]])
     = Inr (JArray [JObject [(''id'', JNumber 1), (''address'', JObject [(''city'', JString ''NY'')])],
              JObject [(''id'', JNumber 2), (''tags'', JArray [JString ''x''])]])
   \<and> list_all is_dict
        [JObject [(''id'', JNumber 1), (''address'', JObject [(''city'', JString ''NY'')])],
         JObject [(''id'', JNumber (2::int)), (''tags'', JArray [JString ''x''])]]
   \<and> json_to_csv example_library
        (JArray [JObject [(''id'', JNumber 1), (''address'', JObject [(''city'', JString ''NY'')])],
                 JObject [(''id'', JNumber 2), (''tags'', JArray [JString ''x''])]]) True True
       = ([], Some \<lparr>columns = [''id'', ''address_city'', ''tags_0''],
                    rows = [[Some (JNumber 1), Some (JString ''NY''), None],
                            [Some (JNumber 2), None, Some (JString ''x'')]]\<rparr>)"
proof -
  let ?xs = "[JObject [(''id'', JNumber 1), (''address'', JObject [(''city'', JString ''NY'')])],
              JObject [(''id'', JNumber (2::int)), (''tags'', JArray [JString ''x''])]]"
  have p: "parse_input example_library (JArray ?xs) = Inr (JArray ?xs)"
    by (simp add: parse_input_def)
  have q: "list_all is_dict ?xs" by simp
  have r: "json_to_csv example_library (JArray ?xs) True True
       = ([], Some \<lparr>columns = [''id'', ''address_city'', ''tags_0''],
                    rows = [[Some (JNumber 1), Some (JString ''NY''), None],
                            [Some (JNumber 2), None, Some (JString ''x'')]]\<rparr>)"
    by (simp add: json_to_csv_def parse_input_def build_frame_def DataFrame_records_def
        dict_def str.simps digit_char_def)
  show ?thesis
    using p q r json_to_csv_array_of_objects [OF p q, of True] by simp
qed

text \<open>
  Claim C1, as amended. Let a scalar leaf stand at the path \<open>p1.p2[i].p3\<close> of a document
  whose field name \<open>p1\<close> is not empty. For every separator, the traversal meets the leaf
  under the key \<open>p1 sep p2 sep i sep p3\<close>, and the flattened record has that key. The key
  is bound to the leaf's value when every leaf that the traversal meets under this key
  has that value, so in particular when no other leaf path collapses to the key.
\<close>
theorem flatten_json_path_key:
  assumes "(p1, JObject o1) \<in> set doc" and "(p2, JArray xs) \<in> set o1"
    and "i < length xs" and "xs ! i = JObject o3" and "(p3, leaf) \<in> set o3"
    and "is_scalar leaf" and "p1 \<noteq> []"
  shows "(p1 @ sep @ p2 @ sep @ str i @ sep @ p3, leaf) \<in> set (leaf_items (JObject doc) [] sep)
         \<and> p1 @ sep @ p2 @ sep @ str i @ sep @ p3 \<in> fst ` set (flatten_json (JObject doc) [] sep)
         \<and> ((\<forall>v. (p1 @ sep @ p2 @ sep @ str i @ sep @ p3, v) \<in> set (leaf_items (JObject doc) [] sep)
                  \<longrightarrow> v = leaf)
              \<longrightarrow> map_of (flatten_json (JObject doc) [] sep) (p1 @ sep @ p2 @ sep @ str i @ sep @ p3)
                    = Some leaf)"
proof -
  let ?key = "p1 @ sep @ p2 @ sep @ str i @ sep @ p3"
  let ?L = "leaf_items (JObject doc) [] sep"
  have l3: "(?key, leaf) \<in> set (leaf_items (JObject o3) (p1 @ sep @ p2 @ sep @ str i) sep)"
    using field_leaves_scalar [OF assms(5) assms(6), of "p1 @ sep @ p2 @ sep @ str i" sep]
      assms(7) by simp
  have l2: "set (leaf_items (JObject o3) (p1 @ sep @ p2 @ sep @ str i) sep)
              \<subseteq> set (elem_leaves xs 0 (p1 @ sep @ p2) sep)"
    using elem_leaves_object [OF assms(3) assms(4), of "p1 @ sep @ p2" sep 0] by simp
  have l1: "set (elem_leaves xs 0 (p1 @ sep @ p2) sep) \<subseteq> set (leaf_items (JObject o1) p1 sep)"
    using field_leaves_array [OF assms(2), of p1 sep] assms(7) by simp
  have l0: "set (leaf_items (JObject o1) p1 sep) \<subseteq> set ?L"
    using field_leaves_object [OF assms(1), of "[]" sep] by simp
  have mem: "(?key, leaf) \<in> set ?L"
    using l3 l2 l1 l0 by blast
  have maps: "map_of (flatten_json (JObject doc) [] sep) = map_of (rev ?L)"
    by (rule map_of_flatten_leaves(1))
  have "fst ` set (flatten_json (JObject doc) [] sep) = fst ` set (rev ?L)"
    by (rule map_of_eq_dom [OF maps])
  with mem have key: "?key \<in> fst ` set (flatten_json (JObject doc) [] sep)"
    by force
  have bound: "map_of (flatten_json (JObject doc) [] sep) ?key = Some leaf"
    if only: "\<forall>v. (?key, v) \<in> set ?L \<longrightarrow> v = leaf"
  proof -
    from key obtain v where v: "map_of (flatten_json (JObject doc) [] sep) ?key = Some v"
      by (metis domD dom_map_of_conv_image_fst)
    then have "(?key, v) \<in> set (rev ?L)"
      unfolding maps by (rule map_of_SomeD)
    with only have "v = leaf" by simp
    with v show ?thesis by simp
  qed
  show ?thesis using mem key bound by blast
qed

theorem flatten_json_path_key_witness:
  "map_of (flatten_json
      (JObject [(''users'', JObject [(''list'', JArray [JNull, JObject [(''name'', JString ''Jane'')]])])])
      [] ''_'') ''users_list_1_name'' = Some (JString ''Jane'' :: int json)"
proof -
  let ?doc = "[(''users'', JObject [(''list'', JArray [JNull, JObject [(''name'', JString ''Jane'' :: int json)]])])]"
  have L: "leaf_items (JObject ?doc) [] ''_'' = [(''users_list_0'', JNull), (''users_list_1_name'', JString ''Jane'')]"
    by (simp add: str.simps digit_char_def)
  have s1: "str 1 = ''1''" by (simp add: str.simps digit_char_def)
  have "(''users'' @ ''_'' @ ''list'' @ ''_'' @ str 1 @ ''_'' @ ''name'', JString ''Jane'') \<in> set (leaf_items (JObject ?doc) [] ''_'')
         \<and> ''users'' @ ''_'' @ ''list'' @ ''_'' @ str 1 @ ''_'' @ ''name'' \<in> fst ` set (flatten_json (JObject ?doc) [] ''_'')
         \<and> ((\<forall>v. (''users'' @ ''_'' @ ''list'' @ ''_'' @ str 1 @ ''_'' @ ''name'', v) \<in> set (leaf_items (JObject ?doc) [] ''_'')
                  \<longrightarrow> v = JString ''Jane'')
              \<longrightarrow> map_of (flatten_json (JObject ?doc) [] ''_'') (''users'' @ ''_'' @ ''list'' @ ''_'' @ str 1 @ ''_'' @ ''name'')
                    = Some (JString ''Jane''))"
    by (rule flatten_json_path_key
          [of "''users''" "[(''list'', JArray [JNull, JObject [(''name'', JString ''Jane'')]])]" ?doc
              "''list''" "[JNull, JObject [(''name'', JString ''Jane'')]]" 1
              "[(''name'', JString ''Jane'')]" "''name''" "JString ''Jane''" "''_''"])
       (simp_all add: is_scalar_def)
  then show ?thesis
    unfolding L s1 by simp
qed

text \<open>
  Claim C1 as stated fails: in \<^verbatim>\<open>{"a": {"b": [{"c": 1}], "b_0_c": 2}}\<close> the leaf \<^verbatim>\<open>1\<close> stands
  at the path \<^verbatim>\<open>a.b[0].c\<close>, and the record does not bind \<^verbatim>\<open>a_b_0_c\<close> to it: the later
  field \<^verbatim>\<open>b_0_c\<close> has the same key and overwrites it.
\<close>

theorem flatten_json_path_key_counterexample:
  "map_of (flatten_json
      (JObject [(''a'', JObject [(''b'', JArray [JObject [(''c'', JNumber (1::int))]]),
                                 (''b_0_c'', JNumber 2)])])
      [] ''_'') ''a_b_0_c'' \<noteq> Some (JNumber 1)"
  by (simp add: dict_def str.simps digit_char_def)

end
